theory Spec2Isabelle
  imports Complex_Main
begin

section \<open>Tensors and the errors of the numeric back end\<close>

text \<open>
  The repository builds Theano graphs and evaluates them later. The embedding
  collapses the two stages: every function computes directly on values, over the
  real numbers (ideal arithmetic; rounding is not modelled). A vector is a list of
  reals, a matrix a list of rows, the common random number buffer a list of
  matrices. Where the back end raises, the model returns an error value; where
  IEEE arithmetic would give inf or nan (a division by zero, the square root of a
  negative number), the model returns \<open>NonFinite\<close> instead of a real number.
\<close>

datatype error =
    ShapeMismatch
  | NotPositiveDefinite
  | SingularMatrix
  | NonFinite
  | IndexError
  | ScanSteps
  | NameError string

type_synonym vec = "real list"
type_synonym mat = "real list list"

text \<open>An exception ends the computation: \<open>and_then m f\<close> runs \<open>f\<close> on the result
  of \<open>m\<close> unless \<open>m\<close> raised.\<close>

definition and_then :: "error + 'a \<Rightarrow> ('a \<Rightarrow> error + 'b) \<Rightarrow> error + 'b" where
  "and_then m f = (case m of Inl e \<Rightarrow> Inl e | Inr x \<Rightarrow> f x)"

definition ncols :: "mat \<Rightarrow> nat" where
  "ncols A = (case A of [] \<Rightarrow> 0 | r # _ \<Rightarrow> length r)"

definition is_mat :: "nat \<Rightarrow> nat \<Rightarrow> mat \<Rightarrow> bool" where
  "is_mat r c A = (length A = r \<and> list_all (\<lambda>row. length row = c) A)"

definition rectangular :: "mat \<Rightarrow> bool" where
  "rectangular A = list_all (\<lambda>row. length row = ncols A) A"

text \<open>\<open>A.T\<close>, and the four shapes of \<open>dot\<close> (the source's \<open>dot\<close> picks one by rank).\<close>

definition col :: "mat \<Rightarrow> nat \<Rightarrow> vec" where
  "col A j = map (\<lambda>r. r ! j) A"

definition mat_T :: "mat \<Rightarrow> mat" where
  "mat_T A = map (col A) [0..<ncols A]"

definition vdot :: "vec \<Rightarrow> vec \<Rightarrow> real" where
  "vdot u v = (\<Sum>k\<leftarrow>[0..<length u]. u ! k * v ! k)"

definition dot_vv :: "vec \<Rightarrow> vec \<Rightarrow> error + real" where
  "dot_vv u v = (if length u = length v then Inr (vdot u v) else Inl ShapeMismatch)"

definition dot_mv :: "mat \<Rightarrow> vec \<Rightarrow> error + vec" where
  "dot_mv A v =
     (if rectangular A \<and> ncols A = length v then Inr (map (\<lambda>r. vdot r v) A)
      else Inl ShapeMismatch)"

definition dot_vm :: "vec \<Rightarrow> mat \<Rightarrow> error + vec" where
  "dot_vm v A =
     (if rectangular A \<and> length v = length A
      then Inr (map (\<lambda>j. vdot v (col A j)) [0..<ncols A])
      else Inl ShapeMismatch)"

definition dot_mm :: "mat \<Rightarrow> mat \<Rightarrow> error + mat" where
  "dot_mm A B =
     (if rectangular A \<and> rectangular B \<and> ncols A = length B
      then Inr (map (\<lambda>r. map (\<lambda>j. vdot r (col B j)) [0..<ncols B]) A)
      else Inl ShapeMismatch)"

text \<open>Elementwise operations need equal shapes (broadcasting of an axis of length
  one is not modelled, except a vector added to every row of a matrix, which
  \<open>step_rollout\<close> uses).\<close>

definition vsub :: "vec \<Rightarrow> vec \<Rightarrow> error + vec" where
  "vsub u v = (if length u = length v then Inr (map2 (-) u v) else Inl ShapeMismatch)"

definition mat_add :: "mat \<Rightarrow> mat \<Rightarrow> error + mat" where
  "mat_add A B =
     (if length A = length B \<and> list_all2 (\<lambda>a b. length a = length b) A B
      then Inr (map2 (map2 (+)) A B) else Inl ShapeMismatch)"

definition mat_sub :: "mat \<Rightarrow> mat \<Rightarrow> error + mat" where
  "mat_sub A B =
     (if length A = length B \<and> list_all2 (\<lambda>a b. length a = length b) A B
      then Inr (map2 (map2 (-)) A B) else Inl ShapeMismatch)"

definition add_rowvec :: "vec \<Rightarrow> mat \<Rightarrow> error + mat" where
  \<comment> \<open>a vector plus a matrix: the vector is added to every row\<close>
  "add_rowvec v A =
     (if list_all (\<lambda>row. length row = length v) A then Inr (map (map2 (+) v) A)
      else Inl ShapeMismatch)"

definition smul :: "real \<Rightarrow> mat \<Rightarrow> mat" where
  "smul c A = map (map ((*) c)) A"

definition tsum :: "mat \<Rightarrow> real" where
  \<comment> \<open>\<open>T.sum(A)\<close>: the sum of all entries\<close>
  "tsum A = sum_list (map sum_list A)"

definition eye :: "nat \<Rightarrow> mat" where
  "eye n = map (\<lambda>i. map (\<lambda>j. if i = j then 1 else 0) [0..<n]) [0..<n]"

definition outer :: "vec \<Rightarrow> vec \<Rightarrow> mat" where
  "outer u v = map (\<lambda>a. map (\<lambda>b. a * b) v) u"

definition concatenate1 :: "mat \<Rightarrow> mat \<Rightarrow> error + mat" where
  \<comment> \<open>\<open>concatenate([A, B], axis=1)\<close>\<close>
  "concatenate1 A B =
     (if length A = length B then Inr (map2 (@) A B) else Inl ShapeMismatch)"

subsection \<open>Determinant, inverse and Cholesky factor (numpy and scipy, behind Theano)\<close>

text \<open>
  These three come from the numeric libraries, not from the repository. They are
  modelled by what they compute over the reals: the determinant by expansion along
  the first row, the inverse by cofactors (numpy raises on a singular matrix), the
  lower Cholesky factor row by row, reading the lower triangle only and raising
  when a pivot is not positive, as LAPACK's \<open>potrf\<close> does.
\<close>

definition del_at :: "nat \<Rightarrow> 'a list \<Rightarrow> 'a list" where
  "del_at j xs = take j xs @ drop (Suc j) xs"

function det :: "mat \<Rightarrow> real" where
  "det [] = 1"
| "det (r # rs) = (\<Sum>j\<leftarrow>[0..<length r]. (- 1) ^ j * r ! j * det (map (del_at j) rs))"
  by pat_completeness auto
termination
  by (relation "measure length") auto

definition det_op :: "mat \<Rightarrow> error + real" where
  "det_op A = (if is_mat (length A) (length A) A then Inr (det A) else Inl ShapeMismatch)"

definition minor_mat :: "mat \<Rightarrow> nat \<Rightarrow> nat \<Rightarrow> mat" where
  "minor_mat A i j = map (del_at j) (del_at i A)"

definition matrix_inverse :: "mat \<Rightarrow> error + mat" where
  "matrix_inverse A =
     (let n = length A in
      if \<not> is_mat n n A then Inl ShapeMismatch
      else if det A = 0 then Inl SingularMatrix
      else Inr (map (\<lambda>i. map (\<lambda>j. (- 1) ^ (i + j) * det (minor_mat A j i) / det A) [0..<n])
                 [0..<n]))"

fun chol_partial :: "mat \<Rightarrow> vec \<Rightarrow> nat \<Rightarrow> vec" where
  "chol_partial Ls s 0 = []"
| "chol_partial Ls s (Suc j) =
     (let r = chol_partial Ls s j
      in r @ [(s ! j - (\<Sum>k\<leftarrow>[0..<j]. r ! k * Ls ! j ! k)) / Ls ! j ! j])"

definition chol_row :: "nat \<Rightarrow> mat \<Rightarrow> vec \<Rightarrow> error + vec" where
  "chol_row n Ls s =
     (let i = length Ls; r = chol_partial Ls s i;
          d = s ! i - (\<Sum>k\<leftarrow>[0..<i]. r ! k * r ! k)
      in if d \<le> 0 then Inl NotPositiveDefinite
         else Inr (r @ [sqrt d] @ replicate (n - Suc i) 0))"

fun chol_rows :: "nat \<Rightarrow> mat \<Rightarrow> mat \<Rightarrow> error + mat" where
  "chol_rows n Ls [] = Inr Ls"
| "chol_rows n Ls (s # ss) =
     (case chol_row n Ls s of Inl e \<Rightarrow> Inl e | Inr r \<Rightarrow> chol_rows n (Ls @ [r]) ss)"

definition cholesky :: "mat \<Rightarrow> error + mat" where
  "cholesky S =
     (if is_mat (length S) (length S) S then chol_rows (length S) [] S
      else Inl ShapeMismatch)"

text \<open>The invariant of the factorisation, for the rows \<open>Ls\<close> computed so far: every
  row has length \<open>n\<close>, a positive diagonal entry and zeros to the right of it, and
  the products of the rows reproduce the lower triangle of \<open>S\<close>.\<close>

definition chol_inv :: "nat \<Rightarrow> mat \<Rightarrow> mat \<Rightarrow> bool" where
  "chol_inv n S Ls \<longleftrightarrow>
     (\<forall>a<length Ls. length (Ls ! a) = n \<and> 0 < Ls ! a ! a
        \<and> (\<forall>b. a < b \<and> b < n \<longrightarrow> Ls ! a ! b = 0)
        \<and> (\<forall>b\<le>a. (\<Sum>k\<le>b. Ls ! a ! k * Ls ! b ! k) = S ! a ! b))"

section \<open>Cost functions (ghost/cost.py)\<close>

record loss_params =
  Q :: mat
  target :: vec

text \<open>
  \<^verbatim>\<open>
  def linear_loss(mx,Sx,params,absolute=True):
      Q = T.constant(params['Q'],dtype=mx.dtype)
      target = T.constant(params['target'],dtype=mx.dtype)
      delta = mx-target
      SxQ = Sx.dot(Q)
      m_cost = Q.T.dot(delta)
      s_cost = Q.T.dot(Sx).dot(Q)
      return m_cost, s_cost
  \<close>
  \<open>SxQ\<close> is bound and never used: no output depends on it, so it is never evaluated.
  \<open>absolute\<close> is never read.
\<close>

definition linear_loss :: "vec \<Rightarrow> mat \<Rightarrow> loss_params \<Rightarrow> bool \<Rightarrow> error + (vec \<times> mat)" where
  "linear_loss mx Sx params absolute =
     (and_then (vsub mx (target params)) (\<lambda>delta.
      let SxQ = dot_mm Sx (Q params) in
      and_then (dot_mv (mat_T (Q params)) delta) (\<lambda>m_cost.
      and_then (dot_mm (mat_T (Q params)) Sx) (\<lambda>QtSx.
      and_then (dot_mm QtSx (Q params)) (\<lambda>s_cost.
      Inr (m_cost, s_cost))))))"

text \<open>The specification's formulas, entry by entry: \<open>Q\<^sup>T (mx - target)\<close> and
  \<open>Q\<^sup>T Sx Q\<close> for a weight matrix \<open>Q\<close> with \<open>D\<close> rows and \<open>k\<close> columns.\<close>

definition linear_m_cost_spec :: "nat \<Rightarrow> nat \<Rightarrow> vec \<Rightarrow> loss_params \<Rightarrow> vec" where
  "linear_m_cost_spec D k mx params =
     map (\<lambda>j. \<Sum>i<D. Q params ! i ! j * (mx ! i - target params ! i)) [0..<k]"

definition linear_s_cost_spec :: "nat \<Rightarrow> nat \<Rightarrow> mat \<Rightarrow> loss_params \<Rightarrow> mat" where
  "linear_s_cost_spec D k Sx params =
     map (\<lambda>j. map (\<lambda>p. \<Sum>i<D. \<Sum>l<D. Q params ! i ! j * Sx ! i ! l * Q params ! l ! p) [0..<k])
       [0..<k]"

text \<open>
  \<^verbatim>\<open>
  def quadratic_loss(mx,Sx,params):
      Q = T.constant(params['Q'],dtype=mx.dtype)
      target = T.constant(params['target'],dtype=mx.dtype)
      delta = mx-target
      deltaQ = delta.T.dot(Q)
      SxQ = Sx.dot(Q)
      m_cost = T.sum(SxQ) + deltaQ.dot(delta)
      s_cost = 2*T.sum(SxQ.dot(SxQ)) + 4*deltaQ.dot(Sx).dot(deltaiQ.T)
      return m_cost, s_cost
  \<close>
  The name \<open>deltaiQ\<close> is bound nowhere: not in the function, not in the module, not
  among the builtins. Python evaluates \<open>2*T.sum(SxQ.dot(SxQ))\<close>, then
  \<open>deltaQ.dot(Sx)\<close>, then the argument \<open>deltaiQ.T\<close>, where it raises NameError.
  (The transpose of a vector is the vector.) The operations before it only add
  nodes to the graph, so in the source the NameError comes whatever the shapes
  are; the model, which computes as it goes, meets a shape mismatch first when
  there is one.
\<close>

definition quadratic_loss :: "vec \<Rightarrow> mat \<Rightarrow> loss_params \<Rightarrow> error + (real \<times> real)" where
  "quadratic_loss mx Sx params =
     (and_then (vsub mx (target params)) (\<lambda>delta.
      and_then (dot_vm delta (Q params)) (\<lambda>deltaQ.
      and_then (dot_mm Sx (Q params)) (\<lambda>SxQ.
      and_then (dot_vv deltaQ delta) (\<lambda>dQd.
      let m_cost = tsum SxQ + dQd in
      and_then (dot_mm SxQ SxQ) (\<lambda>SxQSxQ.
      and_then (dot_vm deltaQ Sx) (\<lambda>deltaQSx.
      Inl (NameError ''deltaiQ''))))))))"


text \<open>The two quantities inside \<open>m_cost\<close>: the determinant \<open>det(IpSxQ)\<close> and the
  quadratic form \<open>delta.dot(S1).dot(delta)\<close>, computed as the function computes them.\<close>

definition saturating_det :: "vec \<Rightarrow> mat \<Rightarrow> loss_params \<Rightarrow> error + real" where
  "saturating_det mx Sx params =
     (and_then (dot_mm Sx (Q params)) (\<lambda>SxQ.
      and_then (mat_add (eye (length mx)) SxQ) (\<lambda>IpSxQ.
      det_op IpSxQ)))"

definition saturating_quad :: "vec \<Rightarrow> mat \<Rightarrow> loss_params \<Rightarrow> error + real" where
  "saturating_quad mx Sx params =
     (and_then (vsub mx (target params)) (\<lambda>delta.
      and_then (dot_mm Sx (Q params)) (\<lambda>SxQ.
      and_then (mat_add (eye (length mx)) SxQ) (\<lambda>IpSxQ.
      and_then (matrix_inverse IpSxQ) (\<lambda>IpSxQ_inv.
      and_then (dot_mm (Q params) IpSxQ_inv) (\<lambda>S1.
      and_then (dot_vm delta S1) (\<lambda>deltaS1.
      dot_vv deltaS1 delta)))))))"

section \<open>Particle propagation and rollout (kusanagi/ghost/algorithms/mc\_pilco.py)\<close>

text \<open>
  The policy, the dynamics model and the cost are objects handed in by the caller.
  The policy and the dynamics are modelled by the one method the rollout calls,
  with the flag \<open>iid_per_eval\<close> it passes on; \<open>symbolic=True\<close> and
  \<open>return_samples=True\<close> are constant. They are functions of their input: random
  draws they may make are not modelled. The cost is called in two ways, with a mean
  and a covariance (\<open>cost(mx_next, Sx_next)\<close>, a pair of which the mean cost is
  taken) and with an ensemble and \<open>None\<close> (\<open>cost(x_next, None)\<close>, one cost per
  particle). \<open>utils.gTrig\<close> is not among the sources: it is a parameter.
\<close>

record policy =
  evaluate :: "mat \<Rightarrow> bool \<Rightarrow> error + mat"

record 's dynamics =
  predict_symbolic :: "mat \<Rightarrow> bool \<Rightarrow> error + (mat \<times> 's)"

record cost_fn =
  cost_moments :: "vec \<Rightarrow> mat \<Rightarrow> error + (real \<times> real)"
  cost_particles :: "mat \<Rightarrow> error + vec"

type_synonym gTrig_fn = "mat \<Rightarrow> nat list \<Rightarrow> nat \<Rightarrow> error + mat"

text \<open>
  \<^verbatim>\<open>
  def propagate_particles(x, pol, dyn, D, angle_dims=None, iid_per_eval=False):
      xa = utils.gTrig(x, angle_dims, D)
      u = pol.evaluate(xa, symbolic=True, iid_per_eval=iid_per_eval,
                       return_samples=True)
      xu = tt.concatenate([xa, u], axis=1)
      delta_x, sn_x = dyn.predict_symbolic(xu, iid_per_eval=iid_per_eval,
                                           return_samples=True)
      x_next = x + delta_x
      return x_next, sn_x
  \<close>
\<close>

definition propagate_particles ::
  "gTrig_fn \<Rightarrow> mat \<Rightarrow> policy \<Rightarrow> 's dynamics \<Rightarrow> nat \<Rightarrow> nat list \<Rightarrow> bool \<Rightarrow> error + (mat \<times> 's)"
where
  "propagate_particles gTrig x pol dyn D angle_dims iid_per_eval =
     (and_then (gTrig x angle_dims D) (\<lambda>xa.
      and_then (evaluate pol xa iid_per_eval) (\<lambda>u.
      and_then (concatenate1 xa u) (\<lambda>xu.
      and_then (predict_symbolic dyn xu iid_per_eval) (\<lambda>(delta_x, sn_x).
      and_then (mat_add x delta_x) (\<lambda>x_next.
      Inr (x_next, sn_x)))))))"

text \<open>
  The moments of an ensemble, as \<open>step_rollout\<close> computes them:
  \<^verbatim>\<open>
        n = x_next.shape[0]
        n = n.astype(theano.config.floatX)
        mx_next = x_next.mean(0)
        Sx_next = x_next.T.dot(x_next)/n - tt.outer(mx_next, mx_next)
  \<close>
  An ensemble of no particles has no mean (0/0).
\<close>

definition mean0 :: "mat \<Rightarrow> vec" where
  "mean0 x = map (\<lambda>j. sum_list (col x j) / real (length x)) [0..<ncols x]"

definition empirical_moments :: "mat \<Rightarrow> error + (vec \<times> mat)" where
  "empirical_moments x_next =
     (let n = real (length x_next) in
      if n = 0 then Inl NonFinite else
      let mx_next = mean0 x_next in
      and_then (dot_mm (mat_T x_next) x_next) (\<lambda>xTx.
      and_then (mat_sub (smul (1 / n) xTx) (outer mx_next mx_next)) (\<lambda>Sx_next.
      Inr (mx_next, Sx_next))))"

text \<open>
  The resampling line of \<open>step_rollout\<close>:
  \<^verbatim>\<open>
            x_next = mx_next + z.dot(tt.slinalg.cholesky(Sx_next).T)
  \<close>
\<close>

definition reproject :: "vec \<Rightarrow> mat \<Rightarrow> mat \<Rightarrow> error + mat" where
  "reproject mx_next Sx_next z =
     (and_then (cholesky Sx_next) (\<lambda>L.
      and_then (dot_mm z (mat_T L)) (\<lambda>zLT.
      add_rowvec mx_next zLT)))"

text \<open>
  \<^verbatim>\<open>
    def step_rollout(z, x, gamma, *args):
        x_next, sn = propagate_particles(x, pol, dyn, D, angle_dims, **kwargs)
        n = x_next.shape[0]
        n = n.astype(theano.config.floatX)
        mx_next = x_next.mean(0)
        Sx_next = x_next.T.dot(x_next)/n - tt.outer(mx_next, mx_next)
        mc_next = cost(mx_next, Sx_next)[0]
        c_next = cost(x_next, None)
        if resample:
            x_next = mx_next + z.dot(tt.slinalg.cholesky(Sx_next).T)
        return [gamma*mc_next, gamma*c_next, x_next, gamma*gamma0]
  \<close>
  The closure's free variables (\<open>pol\<close>, \<open>dyn\<close>, \<open>cost\<close>, \<open>D\<close>, \<open>angle_dims\<close>,
  \<open>resample\<close>, \<open>gamma0\<close>, and \<open>iid_per_eval\<close> in \<open>kwargs\<close>) are arguments here.
\<close>

definition step_rollout ::
  "gTrig_fn \<Rightarrow> policy \<Rightarrow> 's dynamics \<Rightarrow> cost_fn \<Rightarrow> nat \<Rightarrow> nat list \<Rightarrow> bool \<Rightarrow> bool \<Rightarrow> real
     \<Rightarrow> mat \<Rightarrow> mat \<Rightarrow> real \<Rightarrow> error + (real \<times> vec \<times> mat \<times> real)"
where
  "step_rollout gTrig pol dyn cost D angle_dims resample iid_per_eval gamma0 z x gamma =
     (and_then (propagate_particles gTrig x pol dyn D angle_dims iid_per_eval) (\<lambda>(x_next, sn).
      and_then (empirical_moments x_next) (\<lambda>(mx_next, Sx_next).
      and_then (cost_moments cost mx_next Sx_next) (\<lambda>(mc_next, sc_next).
      and_then (cost_particles cost x_next) (\<lambda>c_next.
      and_then (if resample then reproject mx_next Sx_next z else Inr x_next) (\<lambda>x_next'.
      Inr (gamma * mc_next, map ((*) gamma) c_next, x_next', gamma * gamma0)))))))"

text \<open>
  \<^verbatim>\<open>
    output = theano.scan(fn=step_rollout,
                         sequences=[z],
                         outputs_info=[None, None, x0, gamma0],
                         non_sequences=nseq,
                         n_steps=H, ...)
    rollout_output, rollout_updts = output
    mcosts, costs, trajectories = rollout_output[:3]
    costs = costs.T
    trajectories = trajectories.transpose(1, 0, 2)
    return [mcosts, costs, trajectories], rollout_updts
  \<close>
  \<open>scan\<close> walks along the slices of \<open>z\<close>, feeding each step the ensemble and the
  discount the step before returned (first \<open>x0\<close> and \<open>gamma0\<close>), and collects the
  first three results of every step. It runs \<open>n_steps\<close> steps: it rejects a
  number of steps that is not positive and a sequence shorter than that. The
  update set and the gradient truncation play no part in the values.
\<close>

fun scan_steps ::
  "(mat \<Rightarrow> mat \<Rightarrow> real \<Rightarrow> error + (real \<times> vec \<times> mat \<times> real))
     \<Rightarrow> mat list \<Rightarrow> mat \<Rightarrow> real \<Rightarrow> error + (real list \<times> vec list \<times> mat list)"
where
  "scan_steps step [] x gamma = Inr ([], [], [])"
| "scan_steps step (z # zs) x gamma =
     and_then (step z x gamma) (\<lambda>(mc, c, x', gamma').
     and_then (scan_steps step zs x' gamma') (\<lambda>(mcs, cs, xs).
     Inr (mc # mcs, c # cs, x' # xs)))"

definition scan ::
  "(mat \<Rightarrow> mat \<Rightarrow> real \<Rightarrow> error + (real \<times> vec \<times> mat \<times> real))
     \<Rightarrow> mat list \<Rightarrow> mat \<Rightarrow> real \<Rightarrow> int \<Rightarrow> error + (real list \<times> vec list \<times> mat list)"
where
  "scan step z x0 gamma0 n_steps =
     (if n_steps \<le> 0 \<or> int (length z) < n_steps then Inl ScanSteps
      else scan_steps step (take (nat n_steps) z) x0 gamma0)"

definition transpose_102 :: "mat list \<Rightarrow> mat list" where
  \<comment> \<open>\<open>transpose(1, 0, 2)\<close>: from (step, particle, dimension) to (particle, step, dimension)\<close>
  "transpose_102 xs =
     map (\<lambda>b. map (\<lambda>x. x ! b) xs) [0..<(case xs of [] \<Rightarrow> 0 | x # _ \<Rightarrow> length x)]"

definition rollout_scan ::
  "gTrig_fn \<Rightarrow> mat \<Rightarrow> int \<Rightarrow> real \<Rightarrow> policy \<Rightarrow> 's dynamics \<Rightarrow> cost_fn \<Rightarrow> nat \<Rightarrow> nat list
     \<Rightarrow> bool \<Rightarrow> mat list \<Rightarrow> bool \<Rightarrow> error + (real list \<times> vec list \<times> mat list)"
where
  \<comment> \<open>the outputs of the scan, indexed by step first, before the two transpositions\<close>
  "rollout_scan gTrig x0 H gamma0 pol dyn cost D angle_dims resample z iid_per_eval =
     scan (step_rollout gTrig pol dyn cost D angle_dims resample iid_per_eval gamma0)
       z x0 gamma0 H"

definition rollout ::
  "gTrig_fn \<Rightarrow> mat \<Rightarrow> int \<Rightarrow> real \<Rightarrow> policy \<Rightarrow> 's dynamics \<Rightarrow> cost_fn \<Rightarrow> nat \<Rightarrow> nat list
     \<Rightarrow> bool \<Rightarrow> mat list \<Rightarrow> bool \<Rightarrow> error + (real list \<times> mat \<times> mat list)"
where
  "rollout gTrig x0 H gamma0 pol dyn cost D angle_dims resample z iid_per_eval =
     and_then (rollout_scan gTrig x0 H gamma0 pol dyn cost D angle_dims resample z iid_per_eval)
       (\<lambda>(mcosts, costs, trajectories).
          Inr (mcosts, mat_T costs, transpose_102 trajectories))"

section \<open>The common random numbers of get\_loss\<close>

text \<open>
  \<open>np.random\<close> is one generator for the whole process. Its state is modelled by
  the sequence of standard normal draws it will produce and the number of draws
  consumed so far; drawing an array of a given shape consumes one draw for each
  entry, in row-major order.
\<close>

record rng =
  draws :: "nat \<Rightarrow> real"
  consumed :: nat

definition np_random_normal :: "nat \<times> nat \<times> nat \<Rightarrow> rng \<Rightarrow> mat list \<times> rng" where
  "np_random_normal shape g =
     (case shape of (a, b, c) \<Rightarrow>
        (map (\<lambda>i. map (\<lambda>j. map (\<lambda>k. draws g (consumed g + (i * b + j) * c + k)) [0..<c])
                     [0..<b]) [0..<a],
         g\<lparr>consumed := consumed g + a * b * c\<rparr>))"

text \<open>
  \<^verbatim>\<open>
    if crn:
        z = theano.shared(
            np.random.normal(
                size=(100, n_samples, D)).astype(theano.config.floatX))
        z = theano.ifelse.ifelse(
            z.shape[0] < H,
            tt.tile(z, (tt.ceil(H/z.shape[0]).astype('int64'), 1, 1)),
            z
        )[:H]
    ...
    Lx0 = tt.slinalg.cholesky(Sx0)
    x0 = mx0 + z[0].dot(Lx0.T)
  \<close>
  The buffer is drawn when \<open>get_loss\<close> builds the graph, from \<open>np.random\<close>, and
  lives in a shared variable created by that call. \<open>H\<close> is an \<open>int32\<close> input of
  the graph. The package is Python 3 code (\<open>input()\<close>, \<open>list(range(...))\<close>,
  \<open>cmd.encode()\<close> in its plant module), so \<open>/\<close> is the true division and
  \<open>ceil(H/z.shape[0])\<close> is the rounded up quotient. \<open>[:H]\<close> is Python's slice: a
  negative \<open>H\<close> counts from the end.
\<close>

definition crn_shared :: "nat \<Rightarrow> nat \<Rightarrow> rng \<Rightarrow> mat list \<times> rng" where
  "crn_shared n_samples D g = np_random_normal (100, n_samples, D) g"

definition tile0 :: "nat \<Rightarrow> 'a list \<Rightarrow> 'a list" where
  \<comment> \<open>\<open>tt.tile(z, (reps, 1, 1))\<close>\<close>
  "tile0 reps z = concat (replicate reps z)"

definition slice_to :: "'a list \<Rightarrow> int \<Rightarrow> 'a list" where
  \<comment> \<open>\<open>z[:H]\<close>\<close>
  "slice_to z H = (if H < 0 then take (nat (int (length z) + H)) z else take (nat H) z)"

definition crn_fit :: "'a list \<Rightarrow> int \<Rightarrow> 'a list" where
  "crn_fit z H =
     slice_to
       (if int (length z) < H
        then tile0 (nat \<lceil>real_of_int H / real (length z)\<rceil>) z
        else z) H"

definition initial_particles :: "vec \<Rightarrow> mat \<Rightarrow> mat list \<Rightarrow> error + mat" where
  "initial_particles mx0 Sx0 z =
     (and_then (cholesky Sx0) (\<lambda>Lx0.
      and_then (case z of [] \<Rightarrow> Inl IndexError | z0 # _ \<Rightarrow> Inr z0) (\<lambda>z0.
      and_then (dot_mm z0 (mat_T Lx0)) (\<lambda>zLT.
      add_rowvec mx0 zLT))))"

text \<open>What \<open>get_loss\<close> does with the generator when \<open>crn=True\<close>: the buffer it
  hands to \<open>rollout\<close>, the initial particles, and the generator it leaves behind.\<close>

definition get_loss_crn ::
  "nat \<Rightarrow> nat \<Rightarrow> rng \<Rightarrow> vec \<Rightarrow> mat \<Rightarrow> int \<Rightarrow> (mat list \<times> (error + mat)) \<times> rng" where
  "get_loss_crn n_samples D g mx0 Sx0 H =
     (case crn_shared n_samples D g of (z_shared, g') \<Rightarrow>
        let z = crn_fit z_shared H in ((z, initial_particles mx0 Sx0 z), g'))"

section \<open>A small system for evaluation\<close>

text \<open>One state dimension, no angles, a policy that always answers 0, dynamics that
  move every particle by 1, and a cost that is the sum of the coordinates.\<close>

definition ex_gTrig :: gTrig_fn where
  "ex_gTrig x angle_dims D = Inr x"

definition ex_pol :: policy where
  "ex_pol = \<lparr>evaluate = (\<lambda>xa iid. Inr (map (\<lambda>r. [0]) xa))\<rparr>"

definition ex_dyn :: "mat dynamics" where
  "ex_dyn = \<lparr>predict_symbolic = (\<lambda>xu iid. Inr (map (\<lambda>r. [1]) xu, map (\<lambda>r. [0]) xu))\<rparr>"

definition ex_cost :: cost_fn where
  "ex_cost = \<lparr>cost_moments = (\<lambda>mx Sx. Inr (sum_list mx, 0)),
              cost_particles = (\<lambda>x. Inr (map sum_list x))\<rparr>"

section \<open>Shapes and entries of the tensor operations\<close>

lemma and_then_Inr [simp]: "and_then (Inr x) f = f x"
  by (simp add: and_then_def)

lemma and_then_Inl [simp]: "and_then (Inl e) f = Inl e"
  by (simp add: and_then_def)

lemma and_then_eq_Inr: "and_then m f = Inr y \<longleftrightarrow> (\<exists>x. m = Inr x \<and> f x = Inr y)"
  by (cases m) simp_all

lemma is_mat_length: "is_mat r c A \<Longrightarrow> length A = r"
  by (simp add: is_mat_def)

lemma is_mat_row: "is_mat r c A \<Longrightarrow> i < r \<Longrightarrow> length (A ! i) = c"
  by (simp add: is_mat_def list_all_length)

lemma is_mat_ncols: "is_mat r c A \<Longrightarrow> 0 < r \<Longrightarrow> ncols A = c"
  by (cases A) (auto simp: is_mat_def ncols_def)

lemma is_mat_rectangular: "is_mat r c A \<Longrightarrow> 0 < r \<Longrightarrow> rectangular A"
  by (simp add: rectangular_def is_mat_ncols) (simp add: is_mat_def)

lemma is_matI: "length A = r \<Longrightarrow> (\<And>i. i < r \<Longrightarrow> length (A ! i) = c) \<Longrightarrow> is_mat r c A"
  by (simp add: is_mat_def list_all_length)

lemma vdot_sum: "vdot u v = (\<Sum>k<length u. u ! k * v ! k)"
  by (simp add: vdot_def interv_sum_list_conv_sum_set_nat atLeast0LessThan)

lemma is_mat_T: "is_mat r c A \<Longrightarrow> 0 < r \<Longrightarrow> is_mat c r (mat_T A)"
  by (rule is_matI) (simp_all add: mat_T_def is_mat_ncols col_def is_mat_length)

lemma mat_T_nth: "is_mat r c A \<Longrightarrow> 0 < r \<Longrightarrow> j < c \<Longrightarrow> i < r \<Longrightarrow> mat_T A ! j ! i = A ! i ! j"
  by (simp add: mat_T_def is_mat_ncols col_def is_mat_length)

lemma dot_mv_ok:
  assumes "is_mat r c A" "0 < r" "length v = c"
  shows "dot_mv A v = Inr (map (\<lambda>i. \<Sum>k<c. A ! i ! k * v ! k) [0..<r])"
proof -
  have "map (\<lambda>row. vdot row v) A = map (\<lambda>i. \<Sum>k<c. A ! i ! k * v ! k) [0..<r]"
    using assms by (intro nth_equalityI) (simp_all add: is_mat_length vdot_sum is_mat_row)
  then show ?thesis
    using assms by (simp add: dot_mv_def is_mat_rectangular is_mat_ncols)
qed

lemma dot_mm_ok:
  assumes "is_mat r c A" "0 < r" "is_mat c d B" "0 < c"
  shows "dot_mm A B = Inr (map (\<lambda>i. map (\<lambda>j. \<Sum>k<c. A ! i ! k * B ! k ! j) [0..<d]) [0..<r])"
proof -
  have "map (\<lambda>row. map (\<lambda>j. vdot row (col B j)) [0..<ncols B]) A
      = map (\<lambda>i. map (\<lambda>j. \<Sum>k<c. A ! i ! k * B ! k ! j) [0..<d]) [0..<r]"
    using assms
    by (intro nth_equalityI)
       (simp_all add: is_mat_length vdot_sum is_mat_row is_mat_ncols col_def)
  then show ?thesis
    using assms by (simp add: dot_mm_def is_mat_rectangular is_mat_ncols is_mat_length)
qed


lemma vsub_ok: "length u = length v \<Longrightarrow> vsub u v = Inr (map (\<lambda>i. u ! i - v ! i) [0..<length u])"
  by (simp add: vsub_def) (rule nth_equalityI, simp_all)





section \<open>linear\_loss\<close>

text \<open>
  Claim C8. For a mean \<open>mx\<close> and a target of length \<open>D\<close>, a covariance \<open>Sx\<close> of shape
  \<open>D \<times> D\<close> and a weight matrix \<open>Q\<close> of shape \<open>D \<times> k\<close> (\<open>D\<close> and \<open>k\<close> positive),
  \<open>linear_loss\<close> returns
  exactly \<open>m_cost = Q\<^sup>T (mx - target)\<close> and \<open>s_cost = Q\<^sup>T Sx Q\<close>, whatever the value
  of the flag \<open>absolute\<close>.
\<close>

theorem linear_loss_refines_spec:
  assumes "0 < D" and "length mx = D" and "length (target params) = D"
    and "is_mat D D Sx" and "is_mat D k (Q params)" and k: "0 < k"
  shows "linear_loss mx Sx params absolute =
           Inr (linear_m_cost_spec D k mx params, linear_s_cost_spec D k Sx params)"
proof -
  let ?Q = "Q params"
  let ?delta = "map (\<lambda>i. mx ! i - target params ! i) [0..<D]"
  have QT: "is_mat k D (mat_T ?Q)"
    using assms by (simp add: is_mat_T)
  have d: "vsub mx (target params) = Inr ?delta"
    using assms vsub_ok [of mx "target params"] by simp
    have m: "dot_mv (mat_T ?Q) ?delta = Inr (linear_m_cost_spec D k mx params)"
      unfolding linear_m_cost_spec_def
      using assms k dot_mv_ok [OF QT k, of ?delta]
      by (simp add: mat_T_nth [OF assms(5)])
    let ?QtSx = "map (\<lambda>j. map (\<lambda>l. \<Sum>i<D. ?Q ! i ! j * Sx ! i ! l) [0..<D]) [0..<k]"
    have q: "dot_mm (mat_T ?Q) Sx = Inr ?QtSx"
      using assms k dot_mm_ok [OF QT k assms(4) assms(1)]
      by (simp add: mat_T_nth [OF assms(5)])
    have qm: "is_mat k D ?QtSx"
      by (rule is_matI) simp_all
    have "map (\<lambda>j. map (\<lambda>p. \<Sum>l<D. ?QtSx ! j ! l * ?Q ! l ! p) [0..<k]) [0..<k]
        = linear_s_cost_spec D k Sx params"
      unfolding linear_s_cost_spec_def
    proof (intro map_cong refl)
      fix j p assume "j \<in> set [0..<k]" "p \<in> set [0..<k]"
      then have "(\<Sum>l<D. ?QtSx ! j ! l * ?Q ! l ! p)
          = (\<Sum>l<D. \<Sum>i<D. ?Q ! i ! j * Sx ! i ! l * ?Q ! l ! p)"
        by (intro sum.cong refl) (simp add: sum_distrib_right)
      also have "\<dots> = (\<Sum>i<D. \<Sum>l<D. ?Q ! i ! j * Sx ! i ! l * ?Q ! l ! p)"
        by (rule sum.swap)
      finally show "(\<Sum>l<D. ?QtSx ! j ! l * ?Q ! l ! p)
          = (\<Sum>i<D. \<Sum>l<D. ?Q ! i ! j * Sx ! i ! l * ?Q ! l ! p)" .
    qed
    then have s: "dot_mm ?QtSx ?Q = Inr (linear_s_cost_spec D k Sx params)"
      using dot_mm_ok [OF qm k assms(5) assms(1)] by simp
    show ?thesis
      by (simp add: linear_loss_def d m q s Let_def)
qed

theorem linear_loss_refines_spec_witness:
  "linear_loss [3, 1] [[2, 0], [0, 1]] \<lparr>Q = [[5], [1]], target = [1, 1]\<rparr> False
     = Inr ([10], [[51]])"
  using linear_loss_refines_spec
    [of 2 "[3, 1]" "\<lparr>Q = [[5], [1]], target = [1, 1]\<rparr>" "[[2, 0], [0, 1]]" 1 False]
  by (simp add: is_mat_def linear_m_cost_spec_def linear_s_cost_spec_def eval_nat_numeral)

section \<open>quadratic\_loss\<close>

text \<open>
  Claim C4. \<open>quadratic_loss\<close> is claimed to return the closed-form mean and
  variance of the quadratic form. It returns nothing: on every input the call
  ends in an exception, and on well-shaped input that exception is the NameError
  for \<open>deltaiQ\<close>.
\<close>

theorem quadratic_loss_raises:
  "(\<exists>e. quadratic_loss mx Sx params = Inl e)
   \<and> quadratic_loss [1, 2] [[1, 0], [0, 1]] \<lparr>Q = [[1, 0], [0, 1]], target = [0, 0]\<rparr>
       = Inl (NameError ''deltaiQ'')"
proof
  show "\<exists>e. quadratic_loss mx Sx params = Inl e"
    by (auto simp: quadratic_loss_def and_then_def Let_def split: sum.splits)
  show "quadratic_loss [1, 2] [[1, 0], [0, 1]] \<lparr>Q = [[1, 0], [0, 1]], target = [0, 0]\<rparr>
       = Inl (NameError ''deltaiQ'')"
    by (simp add: quadratic_loss_def vsub_def dot_vm_def dot_mm_def dot_vv_def
        rectangular_def ncols_def Let_def)
qed

section \<open>propagate\_particles\<close>



section \<open>The buffer of common random numbers\<close>



section \<open>The scan of rollout, step by step\<close>

lemma scan_steps_step:
  fixes step :: "mat \<Rightarrow> mat \<Rightarrow> real \<Rightarrow> error + (real \<times> vec \<times> mat \<times> real)"
  assumes d: "\<forall>z x gamma mc c x' gamma'.
                step z x gamma = Inr (mc, c, x', gamma') \<longrightarrow> gamma' = gamma * g0"
  shows "scan_steps step zs x gamma = Inr (mcs, cs, xs) \<Longrightarrow>
          length mcs = length zs \<and> length cs = length zs \<and> length xs = length zs \<and>
          (\<forall>t<length zs. step (zs ! t) ((x # xs) ! t) (gamma * g0 ^ t)
                = Inr (mcs ! t, cs ! t, xs ! t, gamma * g0 ^ Suc t))"
proof (induction zs arbitrary: x gamma mcs cs xs)
  case Nil
  then show ?case by simp
next
  case (Cons z zs)
  from Cons.prems obtain mc c x' gamma' mcs' cs' xs' where
    st: "step z x gamma = Inr (mc, c, x', gamma')"
    and rest: "scan_steps step zs x' gamma' = Inr (mcs', cs', xs')"
    and eq: "mcs = mc # mcs'" "cs = c # cs'" "xs = x' # xs'"
    by (auto simp: and_then_eq_Inr)
  have g': "gamma' = gamma * g0" using d st by blast
  note IH = Cons.IH [OF rest]
  show ?case
  proof (intro conjI allI impI)
    fix t assume t: "t < length (z # zs)"
    show "step ((z # zs) ! t) ((x # xs) ! t) (gamma * g0 ^ t)
            = Inr (mcs ! t, cs ! t, xs ! t, gamma * g0 ^ Suc t)"
    proof (cases t)
      case 0
      then show ?thesis using st g' eq by simp
    next
      case (Suc t')
      then have "t' < length zs" using t by simp
      with IH have "step (zs ! t') ((x' # xs') ! t') (gamma' * g0 ^ t')
            = Inr (mcs' ! t', cs' ! t', xs' ! t', gamma' * g0 ^ Suc t')" by blast
      then show ?thesis using Suc eq g' by (simp add: mult.assoc)
    qed
  qed (use IH eq in simp_all)
qed

lemma step_rollout_gamma:
  "step_rollout gTrig pol dyn cost D angle_dims resample iid gamma0 z x gamma = Inr (mc, c, x', gamma')
     \<Longrightarrow> gamma' = gamma * gamma0"
  by (auto simp: step_rollout_def and_then_eq_Inr split: prod.splits)

lemma step_rollout_InrD:
  assumes "step_rollout gTrig pol dyn cost D angle_dims resample iid gamma0 z x gamma = Inr (mc, c, x', gamma')"
  shows "\<exists>x_next sn mx_next Sx_next mc_next sc_next c_next.
           propagate_particles gTrig x pol dyn D angle_dims iid = Inr (x_next, sn)
         \<and> empirical_moments x_next = Inr (mx_next, Sx_next)
         \<and> cost_moments cost mx_next Sx_next = Inr (mc_next, sc_next)
         \<and> cost_particles cost x_next = Inr c_next
         \<and> (if resample then reproject mx_next Sx_next z else Inr x_next) = Inr x'
         \<and> mc = gamma * mc_next \<and> c = map ((*) gamma) c_next \<and> gamma' = gamma * gamma0"
proof -
  from assms obtain x_next sn where
    p: "propagate_particles gTrig x pol dyn D angle_dims iid = Inr (x_next, sn)"
    and r1: "and_then (empirical_moments x_next) (\<lambda>(mx_next, Sx_next).
      and_then (cost_moments cost mx_next Sx_next) (\<lambda>(mc_next, sc_next).
      and_then (cost_particles cost x_next) (\<lambda>c_next.
      and_then (if resample then reproject mx_next Sx_next z else Inr x_next) (\<lambda>x_next'.
      Inr (gamma * mc_next, map ((*) gamma) c_next, x_next', gamma * gamma0)))))
       = Inr (mc, c, x', gamma')"
    unfolding step_rollout_def and_then_eq_Inr [of "propagate_particles gTrig x pol dyn D angle_dims iid"]
    by (auto split: prod.splits)
  from r1 obtain mx_next Sx_next where
    m: "empirical_moments x_next = Inr (mx_next, Sx_next)"
    and r2: "and_then (cost_moments cost mx_next Sx_next) (\<lambda>(mc_next, sc_next).
      and_then (cost_particles cost x_next) (\<lambda>c_next.
      and_then (if resample then reproject mx_next Sx_next z else Inr x_next) (\<lambda>x_next'.
      Inr (gamma * mc_next, map ((*) gamma) c_next, x_next', gamma * gamma0))))
       = Inr (mc, c, x', gamma')"
    unfolding and_then_eq_Inr [of "empirical_moments x_next"]
    by (auto split: prod.splits)
  from r2 obtain mc_next sc_next where
    cm: "cost_moments cost mx_next Sx_next = Inr (mc_next, sc_next)"
    and r3: "and_then (cost_particles cost x_next) (\<lambda>c_next.
      and_then (if resample then reproject mx_next Sx_next z else Inr x_next) (\<lambda>x_next'.
      Inr (gamma * mc_next, map ((*) gamma) c_next, x_next', gamma * gamma0)))
       = Inr (mc, c, x', gamma')"
    unfolding and_then_eq_Inr [of "cost_moments cost mx_next Sx_next"]
    by (auto split: prod.splits)
  from r3 obtain c_next where
    cp: "cost_particles cost x_next = Inr c_next"
    and r4: "and_then (if resample then reproject mx_next Sx_next z else Inr x_next) (\<lambda>x_next'.
      Inr (gamma * mc_next, map ((*) gamma) c_next, x_next', gamma * gamma0))
       = Inr (mc, c, x', gamma')"
    unfolding and_then_eq_Inr [of "cost_particles cost x_next"]
    by blast
  from r4 have "(if resample then reproject mx_next Sx_next z else Inr x_next) = Inr x'
      \<and> mc = gamma * mc_next \<and> c = map ((*) gamma) c_next \<and> gamma' = gamma * gamma0"
    unfolding and_then_eq_Inr by blast
  with p m cm cp show ?thesis by blast
qed


lemma rollout_scan_steps:
  assumes "rollout_scan gTrig x0 H g pol dyn cost D angle_dims resample z iid = Inr (mcosts, costs, traj)"
  shows "0 < H \<and> H \<le> int (length z) \<and> length mcosts = nat H \<and> length costs = nat H
       \<and> length traj = nat H
       \<and> (\<forall>t<nat H. step_rollout gTrig pol dyn cost D angle_dims resample iid g
                        (z ! t) ((x0 # traj) ! t) (g * g ^ t)
                      = Inr (mcosts ! t, costs ! t, traj ! t, g * g ^ Suc t))"
proof -
  let ?step = "step_rollout gTrig pol dyn cost D angle_dims resample iid g"
  from assms have H: "0 < H" "H \<le> int (length z)"
    and sc: "scan_steps ?step (take (nat H) z) x0 g = Inr (mcosts, costs, traj)"
    by (auto simp: rollout_scan_def scan_def split: if_splits)
  have len: "length (take (nat H) z) = nat H"
    using H by simp
  have d: "\<forall>z x gamma mc c x' gamma'.
      ?step z x gamma = Inr (mc, c, x', gamma') \<longrightarrow> gamma' = gamma * g"
    using step_rollout_gamma by blast
  note ch = scan_steps_step [of ?step g, OF d sc, unfolded len]
  have "\<forall>t<nat H. ?step (z ! t) ((x0 # traj) ! t) (g * g ^ t)
                      = Inr (mcosts ! t, costs ! t, traj ! t, g * g ^ Suc t)"
  proof (intro allI impI)
    fix t assume t: "t < nat H"
    with ch have "?step (take (nat H) z ! t) ((x0 # traj) ! t) (g * g ^ t)
                      = Inr (mcosts ! t, costs ! t, traj ! t, g * g ^ Suc t)" by blast
    then show "?step (z ! t) ((x0 # traj) ! t) (g * g ^ t)
                      = Inr (mcosts ! t, costs ! t, traj ! t, g * g ^ Suc t)"
      using t by simp
  qed
  with H ch show ?thesis by blast
qed

lemma rollout_Inr:
  "rollout gTrig x0 H g pol dyn cost D angle_dims resample z iid = Inr (mean_costs, costs', trajectories')
    \<longleftrightarrow> (\<exists>costs traj.
          rollout_scan gTrig x0 H g pol dyn cost D angle_dims resample z iid = Inr (mean_costs, costs, traj)
        \<and> costs' = mat_T costs \<and> trajectories' = transpose_102 traj)"
  by (auto simp: rollout_def and_then_eq_Inr)




lemmas tensor_eval =
  is_mat_def rectangular_def ncols_def col_def mat_T_def vdot_def dot_mm_def dot_mv_def dot_vm_def
  dot_vv_def mat_add_def mat_sub_def add_rowvec_def smul_def outer_def concatenate1_def
  mean0_def empirical_moments_def cholesky_def chol_row_def reproject_def Let_def

lemmas ex_eval =
  step_rollout_def propagate_particles_def ex_gTrig_def ex_pol_def ex_dyn_def ex_cost_def

lemma ex_rollout_scan:
  "rollout_scan ex_gTrig [[0], [2]] 3 (1/2) ex_pol ex_dyn ex_cost 1 [] True
       [[[2], [0]], [[2], [0]], [[2], [0]]] False
     = Inr ([1, 1, 3/4], [[1/2, 3/2], [5/4, 3/4], [7/8, 5/8]],
            [[[4], [2]], [[6], [4]], [[8], [6]]])"
  by (simp add: rollout_scan_def scan_def ex_eval tensor_eval)

lemma ex_rollout:
  "rollout ex_gTrig [[0], [2]] 3 (1/2) ex_pol ex_dyn ex_cost 1 [] True
       [[[2], [0]], [[2], [0]], [[2], [0]]] False
     = Inr ([1, 1, 3/4], [[1/2, 5/4, 7/8], [3/2, 3/4, 5/8]],
            [[[4], [6], [8]], [[2], [4], [6]]])"
  unfolding rollout_def ex_rollout_scan
  by (simp add: mat_T_def ncols_def col_def transpose_102_def eval_nat_numeral)


section \<open>Discounting\<close>

text \<open>
  Claim C1. For every horizon \<open>H\<close> and discount \<open>gamma0 = g\<close>, the mean costs that
  \<open>rollout\<close> returns satisfy \<open>mean_costs[t] = g^(t+1) * c_t\<close> for every step
  \<open>t < H\<close>, where \<open>c_t\<close> is the undiscounted mean cost of step \<open>t\<close>: the cost of
  the moments of the ensemble propagated from the ensemble of the step before
  (\<open>x0\<close> at step 0). Each step emits \<open>gamma * cost\<close> with the current discount,
  which starts at \<open>gamma0\<close> and is multiplied by \<open>gamma0\<close> after every step.
\<close>

theorem rollout_discount:
  assumes "rollout gTrig x0 H g pol dyn cost D angle_dims resample z iid
             = Inr (mean_costs, costs', trajectories')"
  shows "\<exists>costs traj.
           rollout_scan gTrig x0 H g pol dyn cost D angle_dims resample z iid
             = Inr (mean_costs, costs, traj)
         \<and> length mean_costs = nat H
         \<and> (\<forall>t<nat H. \<exists>x_next sn mx_next Sx_next c_t s_t.
               propagate_particles gTrig ((x0 # traj) ! t) pol dyn D angle_dims iid = Inr (x_next, sn)
             \<and> empirical_moments x_next = Inr (mx_next, Sx_next)
             \<and> cost_moments cost mx_next Sx_next = Inr (c_t, s_t)
             \<and> mean_costs ! t = g ^ (t + 1) * c_t)"
proof -
  from assms obtain costs traj where
    sc: "rollout_scan gTrig x0 H g pol dyn cost D angle_dims resample z iid
           = Inr (mean_costs, costs, traj)"
    unfolding rollout_Inr by blast
  note st = rollout_scan_steps [OF sc]
  have "\<exists>x_next sn mx_next Sx_next c_t s_t.
               propagate_particles gTrig ((x0 # traj) ! t) pol dyn D angle_dims iid = Inr (x_next, sn)
             \<and> empirical_moments x_next = Inr (mx_next, Sx_next)
             \<and> cost_moments cost mx_next Sx_next = Inr (c_t, s_t)
             \<and> mean_costs ! t = g ^ (t + 1) * c_t" if "t < nat H" for t
  proof -
    from st that have "step_rollout gTrig pol dyn cost D angle_dims resample iid g
                        (z ! t) ((x0 # traj) ! t) (g * g ^ t)
                      = Inr (mean_costs ! t, costs ! t, traj ! t, g * g ^ Suc t)" by blast
    from step_rollout_InrD [OF this] show ?thesis
      by (auto simp: mult.assoc)
  qed
  with sc st show ?thesis by blast
qed


theorem rollout_discount_witness:
  "\<exists>costs traj.
      rollout_scan ex_gTrig [[0], [2]] 3 (1/2) ex_pol ex_dyn ex_cost 1 [] True
          [[[2], [0]], [[2], [0]], [[2], [0]]] False
        = Inr ([1, 1, 3/4], costs, traj)
    \<and> length [1, 1, 3/4 :: real] = nat 3
    \<and> (\<forall>t<nat 3. \<exists>x_next sn mx_next Sx_next c_t s_t.
          propagate_particles ex_gTrig (([[0], [2]] # traj) ! t) ex_pol ex_dyn 1 [] False
            = Inr (x_next, sn)
        \<and> empirical_moments x_next = Inr (mx_next, Sx_next)
        \<and> cost_moments ex_cost mx_next Sx_next = Inr (c_t, s_t)
        \<and> [1, 1, 3/4] ! t = (1/2) ^ (t + 1) * c_t)"
  by (rule rollout_discount [OF ex_rollout])

section \<open>What the trajectories record\<close>

text \<open>
  Claim C10. With \<open>resample=True\<close>, the trajectories that \<open>rollout\<close> returns hold,
  for every step \<open>t\<close>, the reprojected ensemble \<open>mx_t + z_t cholesky(Sx_t)\<^sup>T\<close>, while
  the mean cost and the costs of the particles at step \<open>t\<close> are computed from the
  propagated ensemble \<open>x_next\<close> before the reprojection (and scaled by
  \<open>g^(t+1)\<close>). In the evaluation below the two ensembles differ at every step:
  the costs of step 0 are those of \<open>[[1], [3]]\<close>, the recorded ensemble is
  \<open>[[4], [2]]\<close>.
\<close>

theorem rollout_records_reprojected:
  assumes "rollout gTrig x0 H g pol dyn cost D angle_dims True z iid
             = Inr (mean_costs, costs', trajectories')"
  shows "\<exists>costs traj.
           rollout_scan gTrig x0 H g pol dyn cost D angle_dims True z iid
             = Inr (mean_costs, costs, traj)
         \<and> costs' = mat_T costs \<and> trajectories' = transpose_102 traj
         \<and> (\<forall>t<nat H. \<exists>x_next sn mx_next Sx_next mc_next sc_next c_next.
               propagate_particles gTrig ((x0 # traj) ! t) pol dyn D angle_dims iid = Inr (x_next, sn)
             \<and> empirical_moments x_next = Inr (mx_next, Sx_next)
             \<and> cost_moments cost mx_next Sx_next = Inr (mc_next, sc_next)
             \<and> cost_particles cost x_next = Inr c_next
             \<and> mean_costs ! t = g ^ (t + 1) * mc_next
             \<and> costs ! t = map ((*) (g ^ (t + 1))) c_next
             \<and> reproject mx_next Sx_next (z ! t) = Inr (traj ! t))"
proof -
  from assms obtain costs traj where
    sc: "rollout_scan gTrig x0 H g pol dyn cost D angle_dims True z iid
           = Inr (mean_costs, costs, traj)"
    and tr: "costs' = mat_T costs" "trajectories' = transpose_102 traj"
    unfolding rollout_Inr by blast
  note st = rollout_scan_steps [OF sc]
  have "\<exists>x_next sn mx_next Sx_next mc_next sc_next c_next.
               propagate_particles gTrig ((x0 # traj) ! t) pol dyn D angle_dims iid = Inr (x_next, sn)
             \<and> empirical_moments x_next = Inr (mx_next, Sx_next)
             \<and> cost_moments cost mx_next Sx_next = Inr (mc_next, sc_next)
             \<and> cost_particles cost x_next = Inr c_next
             \<and> mean_costs ! t = g ^ (t + 1) * mc_next
             \<and> costs ! t = map ((*) (g ^ (t + 1))) c_next
             \<and> reproject mx_next Sx_next (z ! t) = Inr (traj ! t)" if "t < nat H" for t
  proof -
    from st that have "step_rollout gTrig pol dyn cost D angle_dims True iid g
                        (z ! t) ((x0 # traj) ! t) (g * g ^ t)
                      = Inr (mean_costs ! t, costs ! t, traj ! t, g * g ^ Suc t)" by blast
    from step_rollout_InrD [OF this] show ?thesis
      by (auto simp: mult.assoc)
  qed
  with sc tr show ?thesis by blast
qed

theorem rollout_records_reprojected_witness:
  "(\<exists>costs traj.
      rollout_scan ex_gTrig [[0], [2]] 3 (1/2) ex_pol ex_dyn ex_cost 1 [] True
          [[[2], [0]], [[2], [0]], [[2], [0]]] False
        = Inr ([1, 1, 3/4], costs, traj)
    \<and> [[1/2, 5/4, 7/8], [3/2, 3/4, 5/8]] = mat_T costs
    \<and> [[[4], [6], [8]], [[2], [4], [6]]] = transpose_102 traj
    \<and> (\<forall>t<nat 3. \<exists>x_next sn mx_next Sx_next mc_next sc_next c_next.
          propagate_particles ex_gTrig (([[0], [2]] # traj) ! t) ex_pol ex_dyn 1 [] False
            = Inr (x_next, sn)
        \<and> empirical_moments x_next = Inr (mx_next, Sx_next)
        \<and> cost_moments ex_cost mx_next Sx_next = Inr (mc_next, sc_next)
        \<and> cost_particles ex_cost x_next = Inr c_next
        \<and> [1, 1, 3/4] ! t = (1/2) ^ (t + 1) * mc_next
        \<and> costs ! t = map ((*) ((1/2) ^ (t + 1))) c_next
        \<and> reproject mx_next Sx_next ([[[2], [0]], [[2], [0]], [[2], [0]]] ! t) = Inr (traj ! t)))
   \<and> propagate_particles ex_gTrig [[0], [2]] ex_pol ex_dyn 1 [] False = Inr ([[1], [3]], [[0], [0]])
   \<and> empirical_moments [[1], [3]] = Inr ([2], [[1]])
   \<and> reproject [2] [[1]] [[2], [0]] = Inr [[4], [2]]"
proof (intro conjI)
  show "propagate_particles ex_gTrig [[0], [2]] ex_pol ex_dyn 1 [] False = Inr ([[1], [3]], [[0], [0]])"
    by (simp add: ex_eval tensor_eval)
  show "empirical_moments [[1], [3]] = Inr ([2], [[1]])"
    by (simp add: tensor_eval)
  show "reproject [2] [[1]] [[2], [0]] = Inr [[4], [2]]"
    by (simp add: tensor_eval)
qed (rule rollout_records_reprojected [OF ex_rollout])

section \<open>The number of particles\<close>



text \<open>
  The rollout that \<open>get_loss\<close> starts has this shape: every slice of the buffer,
  tiled and cut or not, has \<open>n_samples\<close> rows, and so have the initial particles.
\<close>

lemma set_crn_fit: "set (crn_fit z H) \<subseteq> set z"
proof -
  have "set (tile0 r z) \<subseteq> set z" for r
    by (induction r) (auto simp: tile0_def)
  then show ?thesis
    by (auto simp: crn_fit_def slice_to_def dest!: in_set_takeD)
qed

lemma crn_shared_rows:
  "list_all (\<lambda>z_t. length z_t = n_samples) (fst (crn_shared n_samples D g))"
  by (simp add: crn_shared_def np_random_normal_def list_all_iff)

lemma crn_fit_shared_rows:
  "list_all (\<lambda>z_t. length z_t = n_samples) (crn_fit (fst (crn_shared n_samples D g)) H)"
  using crn_shared_rows [of n_samples D g] set_crn_fit [of "fst (crn_shared n_samples D g)" H]
  by (auto simp: list_all_iff)

lemma initial_particles_rows:
  assumes "initial_particles mx0 Sx0 z = Inr x0"
    and "list_all (\<lambda>z_t. length z_t = n) z"
  shows "length x0 = n"
  using assms
  by (cases z)
     (auto simp: initial_particles_def and_then_eq_Inr dot_mm_def add_rowvec_def split: if_splits)

section \<open>Common random numbers across builds\<close>

lemma draw_index_bound:
  assumes "i < a" "j < b" "k < c"
  shows "(i * b + j) * c + k < a * b * (c::nat)"
proof -
  have "(i * b + j) * c + k < (i * b + j) * c + c"
    using assms by simp
  also have "\<dots> = (i * b + Suc j) * c"
    by (simp add: algebra_simps)
  also have "\<dots> \<le> (i * b + b) * c"
    using assms by (intro mult_right_mono add_left_mono) simp_all
  also have "\<dots> = Suc i * b * c"
    by (simp add: algebra_simps)
  also have "\<dots> \<le> a * b * c"
    using assms by (intro mult_right_mono) simp_all
  finally show ?thesis .
qed

lemma np_random_normal_cong:
  assumes "\<forall>i < a * b * c. draws g (consumed g + i) = draws g' (consumed g' + i)"
  shows "fst (np_random_normal (a, b, c) g) = fst (np_random_normal (a, b, c) g')"
  using assms by (simp add: np_random_normal_def draw_index_bound add.assoc)

lemma crn_fit_one: "crn_fit (map f [0..<100]) 1 = [f 0]"
  by (simp add: crn_fit_def slice_to_def take_map)

lemma initial_particles_1:
  "initial_particles [0] [[1]] ([[v]] # zs) = Inr [[v]]"
  by (simp add: initial_particles_def is_mat_def rectangular_def ncols_def col_def mat_T_def vdot_def dot_mm_def add_rowvec_def cholesky_def chol_row_def Let_def)

text \<open>
  Claim C2 says that two invocations of \<open>get_loss\<close> with the same \<open>H\<close>,
  \<open>n_samples\<close>, \<open>D\<close> and \<open>crn=True\<close> draw identical buffers and hence identical
  initial particles. Every invocation draws its own buffer from \<open>np.random\<close>, so
  the second of two successive invocations reads the draws that follow those of the
  first: with a generator that yields 0, 1, 2, ... and one particle of one
  dimension, the first build starts from the particle 0 and the second from 100.
\<close>

theorem crn_fresh_draws_counterexample:
  "get_loss_crn 1 1 \<lparr>draws = real, consumed = 0\<rparr> [0] [[1]] 1
     = (([[[0]]], Inr [[0]]), \<lparr>draws = real, consumed = 100\<rparr>)
   \<and> get_loss_crn 1 1 \<lparr>draws = real, consumed = 100\<rparr> [0] [[1]] 1
     = (([[[100]]], Inr [[100]]), \<lparr>draws = real, consumed = 200\<rparr>)"
  by (simp add: get_loss_crn_def crn_shared_def np_random_normal_def crn_fit_one
      initial_particles_1 Let_def)

text \<open>
  Claim C2, amended. Two invocations of \<open>get_loss\<close> with the same \<open>H\<close>,
  \<open>n_samples\<close>, \<open>D\<close> and \<open>crn=True\<close> draw identical buffers \<open>z\<close> and hence
  identical initial particles \<open>x0\<close> whenever \<open>np.random\<close> yields the same next
  \<open>100 * n_samples * D\<close> draws to both (as it does after reseeding); each
  invocation consumes that many draws.
\<close>

theorem crn_same_draws:
  assumes "\<forall>i < 100 * n_samples * D. draws g (consumed g + i) = draws g' (consumed g' + i)"
  shows "fst (get_loss_crn n_samples D g mx0 Sx0 H) = fst (get_loss_crn n_samples D g' mx0 Sx0 H)
       \<and> consumed (snd (get_loss_crn n_samples D g mx0 Sx0 H)) = consumed g + 100 * n_samples * D"
proof -
  obtain z g1 where a: "crn_shared n_samples D g = (z, g1)" by force
  obtain z' g1' where b: "crn_shared n_samples D g' = (z', g1')" by force
  have "fst (crn_shared n_samples D g) = fst (crn_shared n_samples D g')"
    unfolding crn_shared_def using assms by (rule np_random_normal_cong)
  then have z: "z = z'"
    using a b by simp
  have c: "consumed g1 = consumed g + 100 * n_samples * D"
    using a by (auto simp: crn_shared_def np_random_normal_def)
  show ?thesis
    by (simp add: get_loss_crn_def a b z c Let_def)
qed

theorem crn_same_draws_witness:
  "fst (get_loss_crn 1 1 \<lparr>draws = (\<lambda>i. real (i mod 100)), consumed = 0\<rparr> [0] [[1]] 3)
     = fst (get_loss_crn 1 1 \<lparr>draws = (\<lambda>i. real (i mod 100)), consumed = 100\<rparr> [0] [[1]] 3)
   \<and> consumed (snd (get_loss_crn 1 1 \<lparr>draws = (\<lambda>i. real (i mod 100)), consumed = 0\<rparr> [0] [[1]] 3))
     = 0 + 100 * 1 * 1"
  using crn_same_draws [of 1 1 "\<lparr>draws = (\<lambda>i. real (i mod 100)), consumed = 0\<rparr>"
      "\<lparr>draws = (\<lambda>i. real (i mod 100)), consumed = 100\<rparr>" "[0]" "[[1]]" 3]
  by simp


section \<open>quadratic\_saturating\_loss at the target\<close>

lemma upt_0_Suc: "[0..<Suc n] = 0 # map Suc [0..<n]"
  by (simp add: upt_conv_Cons map_Suc_upt del: upt_Suc)

lemma eye_Suc: "eye (Suc n) = (1 # replicate n 0) # map ((#) 0) (eye n)"
  by (simp add: eye_def upt_0_Suc comp_def map_replicate_const del: upt_Suc)

lemma del_at_0_Cons [simp]: "del_at 0 (x # xs) = xs"
  by (simp add: del_at_def)

lemma det_eye [simp]: "det (eye n) = 1"
proof (induction n)
  case 0
  then show ?case by (simp add: eye_def)
next
  case (Suc n)
  let ?g = "\<lambda>j. (- 1) ^ j * (1 # replicate n (0::real)) ! j
              * det (map (del_at j) (map ((#) 0) (eye n)))"
  have "(\<Sum>j\<leftarrow>[0..<n]. ?g (Suc j)) = (\<Sum>j = 0..<n. ?g (Suc j))"
    by (simp add: interv_sum_list_conv_sum_set_nat)
  also have "\<dots> = 0"
    by (rule sum.neutral) simp
  finally have z: "(\<Sum>j\<leftarrow>[0..<n]. ?g (Suc j)) = 0" .
  have "det (eye (Suc n)) = (\<Sum>j\<leftarrow>[0..<Suc n]. ?g j)"
    unfolding eye_Suc det.simps by simp
  also have "\<dots> = ?g 0 + (\<Sum>j\<leftarrow>[0..<n]. ?g (Suc j))"
    unfolding upt_0_Suc by (simp add: comp_def)
  also have "\<dots> = det (eye n)"
    unfolding z by (simp add: comp_def)
  finally show ?case using Suc by simp
qed
















lemmas linalg_eval =
  is_mat_def rectangular_def ncols_def col_def mat_T_def vdot_def dot_mm_def dot_mv_def dot_vm_def
  dot_vv_def mat_add_def mat_sub_def smul_def vsub_def eye_def det_op_def matrix_inverse_def
  minor_mat_def del_at_def Let_def






text \<open>In one dimension every variance \<open>s \<ge> 0\<close> with a weight \<open>q \<ge> 0\<close> meets the two
  conditions of the theorem.\<close>

lemma saturating_1d:
  assumes "0 \<le> s" "0 \<le> q"
  shows "saturating_det [m] [[s]] \<lparr>Q = [[q]], target = [t]\<rparr> = Inr (1 + s * q)"
    and "saturating_quad [m] [[s]] \<lparr>Q = [[q]], target = [t]\<rparr> = Inr ((m - t) * (q / (1 + s * q)) * (m - t))"
    and "1 \<le> 1 + s * q"
    and "0 \<le> (m - t) * (q / (1 + s * q)) * (m - t)"
proof -
  have p: "0 \<le> s * q" using assms by simp
  then have nz: "1 + s * q \<noteq> 0" by linarith
  show "saturating_det [m] [[s]] \<lparr>Q = [[q]], target = [t]\<rparr> = Inr (1 + s * q)"
    by (simp add: saturating_det_def linalg_eval)
  show "saturating_quad [m] [[s]] \<lparr>Q = [[q]], target = [t]\<rparr> = Inr ((m - t) * (q / (1 + s * q)) * (m - t))"
    using nz by (simp add: saturating_quad_def linalg_eval)
  show "1 \<le> 1 + s * q" using p by simp
  have "0 \<le> q / (1 + s * q)" using assms p by simp
  then have "0 \<le> (m - t) * (m - t) * (q / (1 + s * q))"
    by (intro mult_nonneg_nonneg zero_le_square)
  then show "0 \<le> (m - t) * (q / (1 + s * q)) * (m - t)"
    by (simp add: mult_ac)
qed

section \<open>Resampling and the moments\<close>

subsection \<open>The Cholesky factor multiplies back to the matrix\<close>

lemma length_chol_partial [simp]: "length (chol_partial Ls s j) = j"
  by (induction j) (simp_all add: Let_def)

lemma chol_partial_prefix: "k < j \<Longrightarrow> chol_partial Ls s (Suc j) ! k = chol_partial Ls s j ! k"
  by (simp add: Let_def nth_append)

lemma chol_partial_solves:
  assumes "\<forall>b<j. Ls ! b ! b \<noteq> 0"
  shows "\<forall>b<j. (\<Sum>k<b. chol_partial Ls s j ! k * Ls ! b ! k) + chol_partial Ls s j ! b * Ls ! b ! b = s ! b"
  using assms
proof (induction j)
  case 0
  then show ?case by simp
next
  case (Suc j)
  let ?r = "chol_partial Ls s j"
  let ?r' = "chol_partial Ls s (Suc j)"
  have IH: "\<forall>b<j. (\<Sum>k<b. ?r ! k * Ls ! b ! k) + ?r ! b * Ls ! b ! b = s ! b"
    using Suc by simp
  have nz: "Ls ! j ! j \<noteq> 0" using Suc.prems by simp
  show ?case
  proof (intro allI impI)
    fix b assume b: "b < Suc j"
    show "(\<Sum>k<b. ?r' ! k * Ls ! b ! k) + ?r' ! b * Ls ! b ! b = s ! b"
    proof (cases "b < j")
      case True
      then have "(\<Sum>k<b. ?r' ! k * Ls ! b ! k) = (\<Sum>k<b. ?r ! k * Ls ! b ! k)"
        by (intro sum.cong refl) (simp add: chol_partial_prefix del: chol_partial.simps)
      moreover have "?r' ! b = ?r ! b"
        using True by (simp add: chol_partial_prefix del: chol_partial.simps)
      ultimately show ?thesis using IH True by (simp del: chol_partial.simps)
    next
      case False
      then have bj: "b = j" using b by simp
      have pre: "(\<Sum>k<j. ?r' ! k * Ls ! j ! k) = (\<Sum>k<j. ?r ! k * Ls ! j ! k)"
        by (intro sum.cong refl) (simp add: chol_partial_prefix del: chol_partial.simps)
      have last: "?r' ! j = (s ! j - (\<Sum>k<j. ?r ! k * Ls ! j ! k)) / Ls ! j ! j"
        by (simp add: Let_def nth_append interv_sum_list_conv_sum_set_nat atLeast0LessThan)
      show ?thesis
        unfolding bj pre last using nz by (simp del: chol_partial.simps)
    qed
  qed
qed

lemma chol_row_inv:
  assumes inv: "chol_inv n S Ls" and i: "length Ls < n"
    and row: "chol_row n Ls (S ! length Ls) = Inr R"
  shows "chol_inv n S (Ls @ [R])"
proof -
  let ?i = "length Ls"
  let ?s = "S ! ?i"
  let ?r = "chol_partial Ls ?s ?i"
  let ?d = "?s ! ?i - (\<Sum>k<?i. ?r ! k * ?r ! k)"
  from row have d: "0 < ?d" and R: "R = ?r @ [sqrt ?d] @ replicate (n - Suc ?i) 0"
    by (auto simp: chol_row_def Let_def interv_sum_list_conv_sum_set_nat atLeast0LessThan
        split: if_splits)
  have lenR: "length R = n" using i by (simp add: R)
  have Rlt: "R ! k = ?r ! k" if "k < ?i" for k
    using that by (simp add: R nth_append)
  have Ri: "R ! ?i = sqrt ?d"
    by (simp add: R nth_append)
  have Rgt: "R ! b = 0" if "?i < b" "b < n" for b
    using that by (simp add: R nth_append nth_Cons')
  have nz: "\<forall>b<?i. Ls ! b ! b \<noteq> 0"
    using inv by (auto simp: chol_inv_def)
  note solve = chol_partial_solves [OF nz, of ?s]
  have newrow: "(\<Sum>k\<le>b. R ! k * (Ls @ [R]) ! b ! k) = S ! ?i ! b" if b: "b \<le> ?i" for b
  proof (cases "b < ?i")
    case True
    have "(\<Sum>k\<le>b. R ! k * (Ls @ [R]) ! b ! k) = (\<Sum>k\<le>b. ?r ! k * Ls ! b ! k)"
      using True by (intro sum.cong refl) (simp add: Rlt nth_append)
    also have "\<dots> = (\<Sum>k<b. ?r ! k * Ls ! b ! k) + ?r ! b * Ls ! b ! b"
      by (simp add: lessThan_Suc_atMost [symmetric])
    also have "\<dots> = S ! ?i ! b"
      using solve True by blast
    finally show ?thesis .
  next
    case False
    then have bi: "b = ?i" using b by simp
    have "(\<Sum>k\<le>?i. R ! k * (Ls @ [R]) ! ?i ! k) = (\<Sum>k\<le>?i. R ! k * R ! k)"
      by simp
    also have "\<dots> = (\<Sum>k<?i. R ! k * R ! k) + R ! ?i * R ! ?i"
      by (simp add: lessThan_Suc_atMost [symmetric])
    also have "(\<Sum>k<?i. R ! k * R ! k) = (\<Sum>k<?i. ?r ! k * ?r ! k)"
      by (intro sum.cong refl) (simp add: Rlt)
    also have "R ! ?i * R ! ?i = ?d"
      using d by (simp add: Ri)
    finally show ?thesis unfolding bi by simp
  qed
  show ?thesis
    unfolding chol_inv_def
  proof (intro allI impI)
    fix a assume a: "a < length (Ls @ [R])"
    show "length ((Ls @ [R]) ! a) = n \<and> 0 < (Ls @ [R]) ! a ! a
        \<and> (\<forall>b. a < b \<and> b < n \<longrightarrow> (Ls @ [R]) ! a ! b = 0)
        \<and> (\<forall>b\<le>a. (\<Sum>k\<le>b. (Ls @ [R]) ! a ! k * (Ls @ [R]) ! b ! k) = S ! a ! b)"
    proof (cases "a < ?i")
      case True
      have "(\<Sum>k\<le>b. (Ls @ [R]) ! a ! k * (Ls @ [R]) ! b ! k) = S ! a ! b" if "b \<le> a" for b
      proof -
        have "(\<Sum>k\<le>b. (Ls @ [R]) ! a ! k * (Ls @ [R]) ! b ! k) = (\<Sum>k\<le>b. Ls ! a ! k * Ls ! b ! k)"
          using True that by (simp add: nth_append)
        then show ?thesis using inv True that by (simp add: chol_inv_def)
      qed
      then show ?thesis
        using inv True by (simp add: chol_inv_def nth_append)
    next
      case False
      then have ai: "a = ?i" using a by simp
      show ?thesis
        unfolding ai using lenR d Rgt newrow by (simp add: Ri)
    qed
  qed
qed


lemma chol_rows_inv:
  assumes "chol_rows n Ls ss = Inr L" and "chol_inv n S Ls"
    and "length Ls + length ss = n" and "\<forall>t<length ss. ss ! t = S ! (length Ls + t)"
  shows "length L = n \<and> chol_inv n S L"
  using assms
proof (induction ss arbitrary: Ls)
  case Nil
  then show ?case by simp
next
  case (Cons s ss)
  from Cons.prems(1) obtain R where
    R: "chol_row n Ls s = Inr R" and rest: "chol_rows n (Ls @ [R]) ss = Inr L"
    by (auto split: sum.splits)
  have s: "s = S ! length Ls"
    using Cons.prems(4) by force
  have lt: "length Ls < n"
    using Cons.prems(3) by simp
  have inv': "chol_inv n S (Ls @ [R])"
    using chol_row_inv [OF Cons.prems(2) lt] R s by simp
  have nxt: "\<forall>t<length ss. ss ! t = S ! (length (Ls @ [R]) + t)"
  proof (intro allI impI)
    fix t assume "t < length ss"
    then have "(s # ss) ! Suc t = S ! (length Ls + Suc t)"
      using Cons.prems(4) by (metis length_Cons not_less_eq)
    then show "ss ! t = S ! (length (Ls @ [R]) + t)" by simp
  qed
  show ?case
    using Cons.IH [OF rest inv' _ nxt] Cons.prems(3) by simp
qed

lemma cholesky_factor:
  assumes c: "cholesky S = Inr L" and n: "length S = n"
    and sym: "\<forall>a<n. \<forall>b<n. S ! a ! b = S ! b ! a"
  shows "is_mat n n L \<and> (\<forall>a<n. \<forall>b<n. (\<Sum>k<n. L ! a ! k * L ! b ! k) = S ! a ! b)"
proof -
  from c n have rows: "chol_rows n [] S = Inr L"
    by (auto simp: cholesky_def split: if_splits)
  have "length L = n \<and> chol_inv n S L"
    by (rule chol_rows_inv [OF rows]) (simp_all add: chol_inv_def n)
  then have len: "length L = n" and inv: "chol_inv n S L" by simp_all
  have m: "is_mat n n L"
    using len inv by (intro is_matI) (simp_all add: chol_inv_def)
  have low: "(\<Sum>k<n. L ! a ! k * L ! b ! k) = S ! a ! b" if "b \<le> a" "a < n" for a b
  proof -
    have "{..<n} = {..b} \<union> {b<..<n}"
      using that by auto
    then have "(\<Sum>k<n. L ! a ! k * L ! b ! k)
        = (\<Sum>k\<le>b. L ! a ! k * L ! b ! k) + (\<Sum>k\<in>{b<..<n}. L ! a ! k * L ! b ! k)"
      by (simp add: sum.union_disjoint ivl_disj_int)
    also have "(\<Sum>k\<in>{b<..<n}. L ! a ! k * L ! b ! k) = 0"
    proof (rule sum.neutral, intro ballI)
      fix k assume "k \<in> {b<..<n}"
      then have "L ! b ! k = 0"
        using inv that len by (simp add: chol_inv_def)
      then show "L ! a ! k * L ! b ! k = 0" by simp
    qed
    also have "(\<Sum>k\<le>b. L ! a ! k * L ! b ! k) = S ! a ! b"
      using inv that len by (simp add: chol_inv_def)
    finally show ?thesis by simp
  qed
  have "(\<Sum>k<n. L ! a ! k * L ! b ! k) = S ! a ! b" if "a < n" "b < n" for a b
  proof (cases "b \<le> a")
    case True
    then show ?thesis using low that by simp
  next
    case False
    then have "(\<Sum>k<n. L ! b ! k * L ! a ! k) = S ! b ! a"
      using low [of a b] that by simp
    then show ?thesis
      using sym that by (simp add: mult.commute)
  qed
  with m show ?thesis by blast
qed


lemma mat_sub_ok:
  assumes "is_mat n d A" "is_mat n d B"
  shows "mat_sub A B = Inr (map (\<lambda>i. map (\<lambda>j. A ! i ! j - B ! i ! j) [0..<d]) [0..<n])"
proof -
  have sh: "list_all2 (\<lambda>a b. length a = length b) A B"
    using assms by (simp add: list_all2_conv_all_nth is_mat_length is_mat_row)
  have "map2 (map2 (-)) A B = map (\<lambda>i. map (\<lambda>j. A ! i ! j - B ! i ! j) [0..<d]) [0..<n]"
    using assms
    by (intro nth_equalityI) (simp_all add: is_mat_length is_mat_row)
  then show ?thesis
    using assms sh by (simp add: mat_sub_def is_mat_length)
qed

lemma mean0_ok:
  assumes "is_mat n D x" "0 < n"
  shows "mean0 x = map (\<lambda>j. (\<Sum>i<n. x ! i ! j) / real n) [0..<D]"
  using assms
  by (simp add: mean0_def is_mat_ncols is_mat_length col_def sum_list_sum_nth atLeast0LessThan)

lemma empirical_moments_ok:
  assumes x: "is_mat n D x" and n: "0 < n" and D: "0 < D"
  shows "empirical_moments x =
           Inr (map (\<lambda>j. (\<Sum>i<n. x ! i ! j) / real n) [0..<D],
                map (\<lambda>j. map (\<lambda>l. (\<Sum>i<n. x ! i ! j * x ! i ! l) / real n
                          - (\<Sum>i<n. x ! i ! j) / real n * ((\<Sum>i<n. x ! i ! l) / real n))
                        [0..<D]) [0..<D])"
proof -
  let ?m = "map (\<lambda>j. (\<Sum>i<n. x ! i ! j) / real n) [0..<D]"
  let ?G = "map (\<lambda>j. map (\<lambda>l. \<Sum>i<n. x ! i ! j * x ! i ! l) [0..<D]) [0..<D]"
  have T: "is_mat D n (mat_T x)"
    using x n by (rule is_mat_T)
  have G: "dot_mm (mat_T x) x = Inr ?G"
    unfolding dot_mm_ok [OF T D x n]
    using mat_T_nth [OF x n] by simp
  have sG: "is_mat D D (smul (1 / real n) ?G)"
    by (rule is_matI) (simp_all add: smul_def)
  have oG: "is_mat D D (outer ?m ?m)"
    by (rule is_matI) (simp_all add: outer_def)
  have "mat_sub (smul (1 / real n) ?G) (outer ?m ?m)
      = Inr (map (\<lambda>j. map (\<lambda>l. (\<Sum>i<n. x ! i ! j * x ! i ! l) / real n
                          - (\<Sum>i<n. x ! i ! j) / real n * ((\<Sum>i<n. x ! i ! l) / real n))
                        [0..<D]) [0..<D])"
    unfolding mat_sub_ok [OF sG oG]
    by (simp add: smul_def outer_def)
  then show ?thesis
    using n x by (simp add: empirical_moments_def mean0_ok [OF x n] G is_mat_length Let_def)
qed

lemma add_rowvec_ok:
  assumes "is_mat n D A" "length v = D"
  shows "add_rowvec v A = Inr (map (\<lambda>i. map (\<lambda>j. v ! j + A ! i ! j) [0..<D]) [0..<n])"
proof -
  have "map (map2 (+) v) A = map (\<lambda>i. map (\<lambda>j. v ! j + A ! i ! j) [0..<D]) [0..<n]"
    using assms
    by (intro nth_equalityI) (simp_all add: is_mat_length is_mat_row)
  then show ?thesis
    using assms by (simp add: add_rowvec_def is_mat_def)
qed

lemma reproject_ok:
  assumes c: "cholesky Sx = Inr L" and L: "is_mat D D L" and D: "0 < D"
    and z: "is_mat m D z" and m: "0 < m" and v: "length mx = D"
  shows "reproject mx Sx z =
           Inr (map (\<lambda>i. map (\<lambda>j. mx ! j + (\<Sum>k<D. z ! i ! k * L ! j ! k)) [0..<D]) [0..<m])"
proof -
  let ?A = "map (\<lambda>i. map (\<lambda>j. \<Sum>k<D. z ! i ! k * L ! j ! k) [0..<D]) [0..<m]"
  have T: "is_mat D D (mat_T L)"
    using L D by (rule is_mat_T)
  have A: "dot_mm z (mat_T L) = Inr ?A"
    unfolding dot_mm_ok [OF z m T D]
    using mat_T_nth [OF L D] by simp
  have Am: "is_mat m D ?A"
    by (rule is_matI) simp_all
  show ?thesis
    by (simp add: reproject_def c A add_rowvec_ok [OF Am v])
qed


lemma map_upt_eqD: "map f [0..<D] = ys \<Longrightarrow> k < D \<Longrightarrow> f k = ys ! k"
  by auto

lemma eye_nth: "i < n \<Longrightarrow> j < n \<Longrightarrow> eye n ! i ! j = (if i = j then 1 else 0)"
  by (simp add: eye_def)

text \<open>
  Claim C3 says that with \<open>resample=True\<close>, for every noise slice \<open>z_t\<close>, the
  empirical mean and covariance of the reprojected ensemble equal the moments
  \<open>(mx_next, Sx_next)\<close> of the propagated ensemble. The reprojected ensemble has
  the mean \<open>mx_next + mean(z_t) L\<^sup>T\<close>: with the slice \<open>[[1], [1]]\<close> the propagated
  ensemble \<open>[[1], [3]]\<close> has the moments \<open>([2], [[1]])\<close> and the reprojected one,
  \<open>[[3], [3]]\<close>, the moments \<open>([3], [[0]])\<close>.
\<close>

theorem reprojection_shifts_moments_counterexample:
  "step_rollout ex_gTrig ex_pol ex_dyn ex_cost 1 [] True False 1 [[1], [1]] [[0], [2]] 1
     = Inr (2, [1, 3], [[3], [3]], 1)
   \<and> propagate_particles ex_gTrig [[0], [2]] ex_pol ex_dyn 1 [] False = Inr ([[1], [3]], [[0], [0]])
   \<and> empirical_moments [[1], [3]] = Inr ([2], [[1]])
   \<and> reproject [2] [[1]] [[1], [1]] = Inr [[3], [3]]
   \<and> empirical_moments [[3], [3]] = Inr ([3], [[0]])"
  by (simp add: ex_eval tensor_eval)

text \<open>
  Claim C3, amended. With \<open>resample=True\<close>, for every step whose noise slice
  \<open>z_t\<close> has itself the empirical mean 0 and the empirical covariance \<open>I\<close>, and
  for which the reprojection succeeds (the Cholesky factor exists), the empirical
  mean and the empirical covariance of the reprojected ensemble
  \<open>mx_next + z_t cholesky(Sx_next)\<^sup>T\<close> equal the moments \<open>(mx_next, Sx_next)\<close>
  computed from the propagated ensemble.
\<close>

theorem reprojection_matches_moments:
  assumes n: "0 < n" and m: "0 < m" and D: "0 < D"
    and x: "is_mat n D x_next" and z: "is_mat m D z"
    and mom: "empirical_moments x_next = Inr (mx_next, Sx_next)"
    and zmom: "empirical_moments z = Inr (replicate D 0, eye D)"
    and rep: "reproject mx_next Sx_next z = Inr x'"
  shows "empirical_moments x' = Inr (mx_next, Sx_next)"
proof -
  let ?M = mx_next and ?S = Sx_next
  \<comment> \<open>shape and symmetry of the moments of the propagated ensemble\<close>
  from mom have M: "?M = map (\<lambda>j. (\<Sum>i<n. x_next ! i ! j) / real n) [0..<D]"
    and S: "?S = map (\<lambda>j. map (\<lambda>l. (\<Sum>i<n. x_next ! i ! j * x_next ! i ! l) / real n
                          - (\<Sum>i<n. x_next ! i ! j) / real n * ((\<Sum>i<n. x_next ! i ! l) / real n))
                        [0..<D]) [0..<D]"
    unfolding empirical_moments_ok [OF x n D] by simp_all
  have lenM: "length ?M = D" by (subst M) simp
  have lenS: "length ?S = D" by (subst S) simp
  have Srow: "length (?S ! j) = D" if "j < D" for j
    using that by (subst S) simp
  have sym: "\<forall>a<D. \<forall>b<D. ?S ! a ! b = ?S ! b ! a"
    by (subst (1 2) S) (simp add: mult.commute)
  \<comment> \<open>the noise slice has mean zero and second moment the identity\<close>
  from zmom have zm: "map (\<lambda>j. (\<Sum>i<m. z ! i ! j) / real m) [0..<D] = replicate D 0"
    and zc: "map (\<lambda>j. map (\<lambda>l. (\<Sum>i<m. z ! i ! j * z ! i ! l) / real m
                          - (\<Sum>i<m. z ! i ! j) / real m * ((\<Sum>i<m. z ! i ! l) / real m))
                        [0..<D]) [0..<D] = eye D"
    unfolding empirical_moments_ok [OF z m D] by simp_all
  have z1: "(\<Sum>i<m. z ! i ! k) = 0" if "k < D" for k
    using map_upt_eqD [OF zm that] m that by simp
  have z2: "(\<Sum>i<m. z ! i ! k * z ! i ! k') = (if k = k' then real m else 0)"
    if "k < D" "k' < D" for k k'
  proof -
    have "map (\<lambda>l. (\<Sum>i<m. z ! i ! k * z ! i ! l) / real m
                          - (\<Sum>i<m. z ! i ! k) / real m * ((\<Sum>i<m. z ! i ! l) / real m))
                        [0..<D] = eye D ! k"
      using map_upt_eqD [OF zc that(1)] .
    from map_upt_eqD [OF this that(2)]
    have "(\<Sum>i<m. z ! i ! k * z ! i ! k') / real m = (if k = k' then 1 else 0)"
      using that by (simp add: z1 eye_nth)
    then show ?thesis
      using m by (simp add: field_simps split: if_splits)
  qed
  \<comment> \<open>the Cholesky factor\<close>
  from rep obtain L where c: "cholesky ?S = Inr L"
    unfolding reproject_def and_then_eq_Inr by blast
  from cholesky_factor [OF c lenS sym]
  have L: "is_mat D D L" and LL: "\<And>a b. a < D \<Longrightarrow> b < D \<Longrightarrow> (\<Sum>k<D. L ! a ! k * L ! b ! k) = ?S ! a ! b"
    by simp_all
  define a where "a i j = (\<Sum>k<D. z ! i ! k * L ! j ! k)" for i j
  have x': "x' = map (\<lambda>i. map (\<lambda>j. ?M ! j + a i j) [0..<D]) [0..<m]"
    using rep unfolding reproject_ok [OF c L D z m lenM] a_def by simp
  have x'm: "is_mat m D x'"
    unfolding x' by (rule is_matI) simp_all
  have x'nth: "x' ! i ! j = ?M ! j + a i j" if "i < m" "j < D" for i j
    using that by (simp add: x')
  \<comment> \<open>first and second sums of the shifts\<close>
  have a1: "(\<Sum>i<m. a i j) = 0" if "j < D" for j
  proof -
    have "(\<Sum>i<m. a i j) = (\<Sum>k<D. \<Sum>i<m. z ! i ! k * L ! j ! k)"
      unfolding a_def by (rule sum.swap)
    also have "\<dots> = (\<Sum>k<D. (\<Sum>i<m. z ! i ! k) * L ! j ! k)"
      by (simp add: sum_distrib_right)
    also have "\<dots> = 0"
      by (rule sum.neutral) (simp add: z1)
    finally show ?thesis .
  qed
  have a2: "(\<Sum>i<m. a i j * a i l) = real m * ?S ! j ! l" if "j < D" "l < D" for j l
  proof -
    have "(\<Sum>i<m. a i j * a i l)
        = (\<Sum>i<m. \<Sum>k<D. \<Sum>k'<D. (z ! i ! k * z ! i ! k') * (L ! j ! k * L ! l ! k'))"
      unfolding a_def by (simp add: sum_product mult_ac)
    also have "\<dots> = (\<Sum>k<D. \<Sum>i<m. \<Sum>k'<D. (z ! i ! k * z ! i ! k') * (L ! j ! k * L ! l ! k'))"
      by (rule sum.swap)
    also have "\<dots> = (\<Sum>k<D. \<Sum>k'<D. \<Sum>i<m. (z ! i ! k * z ! i ! k') * (L ! j ! k * L ! l ! k'))"
      by (intro sum.cong refl sum.swap)
    also have "\<dots> = (\<Sum>k<D. \<Sum>k'<D. (\<Sum>i<m. z ! i ! k * z ! i ! k') * (L ! j ! k * L ! l ! k'))"
      by (simp add: sum_distrib_right)
    also have "\<dots> = (\<Sum>k<D. \<Sum>k'<D. (if k = k' then real m else 0) * (L ! j ! k * L ! l ! k'))"
      by (intro sum.cong refl) (simp add: z2)
    also have "\<dots> = (\<Sum>k<D. real m * (L ! j ! k * L ! l ! k))"
      by (intro sum.cong refl) (simp add: if_distrib [of "\<lambda>c. c * _"] sum.delta' cong: if_cong)
    also have "\<dots> = real m * (\<Sum>k<D. L ! j ! k * L ! l ! k)"
      by (simp add: sum_distrib_left)
    also have "\<dots> = real m * ?S ! j ! l"
      using LL that by simp
    finally show ?thesis .
  qed
  \<comment> \<open>the moments of the reprojected ensemble\<close>
  have s1: "(\<Sum>i<m. x' ! i ! j) = real m * ?M ! j" if "j < D" for j
  proof -
    have "(\<Sum>i<m. x' ! i ! j) = (\<Sum>i<m. ?M ! j + a i j)"
      by (intro sum.cong refl) (simp add: x'nth that)
    then show ?thesis
      by (simp add: sum.distrib a1 that)
  qed
  have s2: "(\<Sum>i<m. x' ! i ! j * x' ! i ! l) = real m * (?M ! j * ?M ! l) + real m * ?S ! j ! l"
    if "j < D" "l < D" for j l
  proof -
    have "(\<Sum>i<m. x' ! i ! j * x' ! i ! l) = (\<Sum>i<m. (?M ! j + a i j) * (?M ! l + a i l))"
      by (intro sum.cong refl) (simp add: x'nth that)
    also have "\<dots> = (\<Sum>i<m. ?M ! j * ?M ! l + ?M ! j * a i l + ?M ! l * a i j + a i j * a i l)"
      by (intro sum.cong refl) (simp add: algebra_simps)
    also have "\<dots> = real m * (?M ! j * ?M ! l) + ?M ! j * (\<Sum>i<m. a i l)
                     + ?M ! l * (\<Sum>i<m. a i j) + (\<Sum>i<m. a i j * a i l)"
      by (simp add: sum.distrib sum_distrib_left)
    finally show ?thesis
      by (simp add: a1 a2 that)
  qed
  have mean: "map (\<lambda>j. (\<Sum>i<m. x' ! i ! j) / real m) [0..<D] = ?M"
    using m by (intro nth_equalityI) (simp_all add: lenM s1)
  have cov: "map (\<lambda>j. map (\<lambda>l. (\<Sum>i<m. x' ! i ! j * x' ! i ! l) / real m
                          - (\<Sum>i<m. x' ! i ! j) / real m * ((\<Sum>i<m. x' ! i ! l) / real m))
                        [0..<D]) [0..<D] = ?S"
  proof (intro nth_equalityI)
    show "length (map (\<lambda>j. map (\<lambda>l. (\<Sum>i<m. x' ! i ! j * x' ! i ! l) / real m
                          - (\<Sum>i<m. x' ! i ! j) / real m * ((\<Sum>i<m. x' ! i ! l) / real m))
                        [0..<D]) [0..<D]) = length ?S"
      by (simp add: lenS)
  next
    fix j assume "j < length (map (\<lambda>j. map (\<lambda>l. (\<Sum>i<m. x' ! i ! j * x' ! i ! l) / real m
                          - (\<Sum>i<m. x' ! i ! j) / real m * ((\<Sum>i<m. x' ! i ! l) / real m))
                        [0..<D]) [0..<D])"
    then have j: "j < D" by simp
    then show "length (map (\<lambda>j. map (\<lambda>l. (\<Sum>i<m. x' ! i ! j * x' ! i ! l) / real m
                          - (\<Sum>i<m. x' ! i ! j) / real m * ((\<Sum>i<m. x' ! i ! l) / real m))
                        [0..<D]) [0..<D] ! j) = length (?S ! j)"
      by (simp add: Srow)
    fix l assume "l < length (map (\<lambda>j. map (\<lambda>l. (\<Sum>i<m. x' ! i ! j * x' ! i ! l) / real m
                          - (\<Sum>i<m. x' ! i ! j) / real m * ((\<Sum>i<m. x' ! i ! l) / real m))
                        [0..<D]) [0..<D] ! j)"
    then have l: "l < D" using j by simp
    show "map (\<lambda>j. map (\<lambda>l. (\<Sum>i<m. x' ! i ! j * x' ! i ! l) / real m
                          - (\<Sum>i<m. x' ! i ! j) / real m * ((\<Sum>i<m. x' ! i ! l) / real m))
                        [0..<D]) [0..<D] ! j ! l = ?S ! j ! l"
      using j l m by (simp add: s1 s2 field_simps)
  qed
  show ?thesis
    unfolding empirical_moments_ok [OF x'm m D] mean cov ..
qed


theorem reprojection_matches_moments_witness:
  "empirical_moments [[1], [3]] = Inr ([2], [[1]])
   \<and> empirical_moments [[1], [- 1]] = Inr (replicate 1 0, eye 1)
   \<and> reproject [2] [[1]] [[1], [- 1]] = Inr [[3], [1]]
   \<and> empirical_moments [[3], [1]] = Inr ([2], [[1]])"
proof -
  have h: "(0::nat) < 2" "(0::nat) < 1" "is_mat 2 1 [[1], [3]]" "is_mat 2 1 [[1], [- 1]]"
    by (simp_all add: is_mat_def)
  have a: "empirical_moments [[1], [3]] = Inr ([2], [[1]])"
    by (simp add: tensor_eval)
  have b: "empirical_moments [[1], [- 1]] = Inr (replicate 1 0, eye 1)"
    by (simp add: tensor_eval eye_def)
  have c: "reproject [2] [[1]] [[1], [- 1]] = Inr [[3], [1]]"
    by (simp add: tensor_eval)
  from reprojection_matches_moments [OF h(1) h(1) h(2) h(3) h(4) a b c] a b c
  show ?thesis by simp
qed


end
